theory Spec2Isabelle
  imports Main "HOL-Library.Word"
begin

section \<open>Values, exceptions and the outside world\<close>

text \<open>
  The program is a Python script. An uncaught exception is a value of type \<open>exn\<close>;
  a function that may raise returns \<open>exn + 'a\<close>. Python strings are modelled as
  \<open>string\<close>; a character with code above 127 stands for non-ASCII text.
  Calls to the logger write to the console and to a log file only; they are left out.
\<close>

datatype exn =
    ValueError
  | AttributeError
  | TypeError
  | KeyError
  | IndexError
  | UnicodeEncodeError
  | SystemExit string

type_synonym byte = "8 word"

definition ebind :: "exn + 'a \<Rightarrow> ('a \<Rightarrow> exn + 'b) \<Rightarrow> exn + 'b" where
  "ebind m f = (case m of Inl e \<Rightarrow> Inl e | Inr x \<Rightarrow> f x)"

subsection \<open>Python values\<close>

text \<open>
  What \<open>response.json()\<close> can return: \<open>None\<close>, a bool, a number, a string, a list or
  a dict with string keys (an association list with distinct keys, looked up with
  \<open>map_of\<close>). Numbers are integers here; a JSON number with a fraction behaves like
  an integer, zero or not, in every operation this program applies.
\<close>

datatype pyval =
    PNone
  | PBool bool
  | PInt int
  | PStr string
  | PList "pyval list"
  | PDict "(string \<times> pyval) list"

text \<open>Truth value testing, as in \<open>if x:\<close> and \<open>not x\<close>.\<close>

fun truthy :: "pyval \<Rightarrow> bool" where
  "truthy PNone = False"
| "truthy (PBool b) = b"
| "truthy (PInt i) = (i \<noteq> 0)"
| "truthy (PStr s) = (s \<noteq> [])"
| "truthy (PList xs) = (xs \<noteq> [])"
| "truthy (PDict kvs) = (kvs \<noteq> [])"

text \<open>\<open>isinstance(x, list)\<close>\<close>

fun is_list :: "pyval \<Rightarrow> bool" where
  "is_list (PList xs) = True"
| "is_list _ = False"

text \<open>\<open>x.get(key)\<close>: only a dict has the method.\<close>

fun py_get :: "pyval \<Rightarrow> string \<Rightarrow> exn + pyval" where
  "py_get (PDict kvs) k = Inr (case map_of kvs k of None \<Rightarrow> PNone | Some v \<Rightarrow> v)"
| "py_get _ k = Inl AttributeError"

text \<open>\<open>k in s\<close> for two strings: \<open>k\<close> occurs in \<open>s\<close> as a substring.\<close>

fun contains_str :: "string \<Rightarrow> string \<Rightarrow> bool" where
  "contains_str k [] = (k = [])"
| "contains_str k (x # xs) = (take (length k) (x # xs) = k \<or> contains_str k xs)"

text \<open>\<open>key in x\<close> for a string key.\<close>

fun py_contains :: "string \<Rightarrow> pyval \<Rightarrow> exn + bool" where
  "py_contains k (PDict kvs) = Inr (map_of kvs k \<noteq> None)"
| "py_contains k (PList xs) = Inr (PStr k \<in> set xs)"
| "py_contains k (PStr s) = Inr (contains_str k s)"
| "py_contains k _ = Inl TypeError"

text \<open>\<open>x[key]\<close> for a string key.\<close>

fun py_getitem :: "pyval \<Rightarrow> string \<Rightarrow> exn + pyval" where
  "py_getitem (PDict kvs) k = (case map_of kvs k of None \<Rightarrow> Inl KeyError | Some v \<Rightarrow> Inr v)"
| "py_getitem _ k = Inl TypeError"

text \<open>\<open>len(x)\<close>\<close>

fun py_len :: "pyval \<Rightarrow> exn + nat" where
  "py_len (PStr s) = Inr (length s)"
| "py_len (PList xs) = Inr (length xs)"
| "py_len (PDict kvs) = Inr (length kvs)"
| "py_len _ = Inl TypeError"

text \<open>\<open>x[0]\<close>: a dict parsed from JSON has no key \<open>0\<close>.\<close>

fun py_first :: "pyval \<Rightarrow> exn + pyval" where
  "py_first (PList []) = Inl IndexError"
| "py_first (PList (x # xs)) = Inr x"
| "py_first (PStr []) = Inl IndexError"
| "py_first (PStr (c # cs)) = Inr (PStr [c])"
| "py_first (PDict kvs) = Inl KeyError"
| "py_first _ = Inl TypeError"

text \<open>
  \<open>f"{x}"\<close>: a string is inserted as it is; the text of any other value is given by
  \<open>render\<close>, the interpreter's \<open>str()\<close>, which is a parameter of the model.
\<close>

definition fmt :: "(pyval \<Rightarrow> string) \<Rightarrow> pyval \<Rightarrow> string" where
  "fmt render v = (case v of PStr s \<Rightarrow> s | _ \<Rightarrow> render v)"

subsection \<open>String helpers of the Python runtime\<close>

text \<open>\<open>s.rstrip(cs)\<close>: drop every trailing character that occurs in \<open>cs\<close>.\<close>

definition rstrip :: "string \<Rightarrow> string \<Rightarrow> string" where
  "rstrip cs s = rev (dropWhile (\<lambda>c. c \<in> set cs) (rev s))"

text \<open>\<open>s.split(c)\<close> for a one-character separator: never empty.\<close>

fun split_on :: "char \<Rightarrow> string \<Rightarrow> string list" where
  "split_on c [] = [[]]"
| "split_on c (x # xs) =
     (if x = c then [] # split_on c xs
      else (x # hd (split_on c xs)) # tl (split_on c xs))"

text \<open>\<open>sep.join(parts)\<close>\<close>

fun join :: "string \<Rightarrow> string list \<Rightarrow> string" where
  "join sep [] = []"
| "join sep [p] = p"
| "join sep (p # q # ps) = p @ sep @ join sep (q # ps)"

subsection \<open>base64.urlsafe_b64encode\<close>

definition b64_alphabet :: string where
  "b64_alphabet = ''ABCDEFGHIJKLMNOPQRSTUVWXYZabcdefghijklmnopqrstuvwxyz0123456789-_''"

text \<open>The \<open>k\<close>-th 6-bit digit (from the right) of a group \<open>n\<close>, as a character.\<close>

definition digit6 :: "nat \<Rightarrow> nat \<Rightarrow> char" where
  "digit6 n k = b64_alphabet ! (n div 64 ^ k mod 64)"

text \<open>
  Three bytes form a 24-bit group that is cut into four 6-bit digits; a final group of
  one or two bytes is zero-filled and padded with \<open>=\<close> to four characters. The result
  is ASCII, so the \<open>.decode("utf-8")\<close> that follows in the source changes nothing.
\<close>

fun urlsafe_b64encode :: "byte list \<Rightarrow> string" where
  "urlsafe_b64encode [] = []"
| "urlsafe_b64encode [a] =
     (let n = unat a * 65536
      in [digit6 n 3, digit6 n 2, CHR ''='', CHR ''=''])"
| "urlsafe_b64encode [a, b] =
     (let n = unat a * 65536 + unat b * 256
      in [digit6 n 3, digit6 n 2, digit6 n 1, CHR ''=''])"
| "urlsafe_b64encode (a # b # c # rest) =
     (let n = unat a * 65536 + unat b * 256 + unat c
      in [digit6 n 3, digit6 n 2, digit6 n 1, digit6 n 0]
         @ urlsafe_b64encode rest)"

text \<open>\<open>s.encode("ascii")\<close> raises on a character outside ASCII.\<close>

definition encode_ascii :: "string \<Rightarrow> exn + byte list" where
  "encode_ascii s =
     (if list_all (\<lambda>c. (of_char c :: nat) < 128) s
      then Inr (map (\<lambda>c. of_nat (of_char c)) s)
      else Inl UnicodeEncodeError)"

text \<open>\<open>bytes.hex()\<close>: two lower-case hexadecimal digits for each byte.\<close>

definition hex :: "byte list \<Rightarrow> string" where
  "hex bs = concat (map (\<lambda>b. [''0123456789abcdef'' ! (unat b div 16),
                               ''0123456789abcdef'' ! (unat b mod 16)]) bs)"

subsection \<open>Regular expressions\<close>

text \<open>
  The constructs of Python's \<open>re\<close> that the two patterns of the program use: a
  literal, a character class of single characters and ranges, concatenation, the
  counted repetition \<open>{lo,hi}\<close> (\<open>?\<close> is \<open>{0,1}\<close>, \<open>+\<close> is \<open>{1,}\<close>), the anchors
  \<open>^\<close> and \<open>$\<close> and the one-character negative lookbehind.
\<close>

datatype cset_item = Ch char | Rg char char

fun in_item :: "char \<Rightarrow> cset_item \<Rightarrow> bool" where
  "in_item x (Ch c) = (x = c)"
| "in_item x (Rg lo hi) =
     ((of_char lo :: nat) \<le> of_char x \<and> (of_char x :: nat) \<le> of_char hi)"

datatype regex =
    Lit char
  | Cls "cset_item list"
  | Seq regex regex
  | Repeat regex nat "nat option"
  | Bol
  | Eol
  | NotBehind char
  | Eps

text \<open>
  A position in the subject string: the characters already consumed, last one first,
  and the characters still to come.
\<close>

type_synonym pos = "string \<times> string"

text \<open>
  \<open>iter f lo hi p\<close>: the positions reached from \<open>p\<close> by applying the matcher \<open>f\<close>
  between \<open>lo\<close> and \<open>hi\<close> times.
\<close>

fun iter :: "(pos \<Rightarrow> pos list) \<Rightarrow> nat \<Rightarrow> nat \<Rightarrow> pos \<Rightarrow> pos list" where
  "iter f lo 0 p = (if lo = 0 then [p] else [])"
| "iter f lo (Suc hi) p =
     (if lo = 0 then [p] else []) @ concat (map (iter f (lo - 1) hi) (f p))"

text \<open>
  \<open>ends r p\<close>: every position at which a match of \<open>r\<close> that starts at \<open>p\<close> can end
  (the backtracking matcher tries them all, so a match exists iff the list is not
  empty). \<open>$\<close> holds at the end of the string and before a final newline. An
  unbounded repetition needs no more rounds than there are characters left, since
  the repeated patterns of this program consume at least one character per round.
\<close>

primrec ends :: "regex \<Rightarrow> pos \<Rightarrow> pos list" where
  "ends (Lit c) p =
     (case snd p of [] \<Rightarrow> [] | x # xs \<Rightarrow> if x = c then [(x # fst p, xs)] else [])"
| "ends (Cls items) p =
     (case snd p of [] \<Rightarrow> []
      | x # xs \<Rightarrow> if list_ex (in_item x) items then [(x # fst p, xs)] else [])"
| "ends (Seq a b) p = concat (map (ends b) (ends a p))"
| "ends (Repeat r lo hi) p =
     iter (ends r) lo (case hi of Some h \<Rightarrow> h | None \<Rightarrow> max lo (length (snd p))) p"
| "ends Bol p = (if fst p = [] then [p] else [])"
| "ends Eol p = (if snd p = [] \<or> snd p = [CHR 0x0A] then [p] else [])"
| "ends (NotBehind c) p =
     (case fst p of [] \<Rightarrow> [p] | b # _ \<Rightarrow> if b = c then [] else [p])"
| "ends Eps p = [p]"

definition seq :: "regex list \<Rightarrow> regex" where
  "seq rs = foldr Seq rs Eps"

text \<open>\<open>re.match(r, s)\<close> as a truth value: is there a match starting at the beginning?\<close>

definition re_match :: "regex \<Rightarrow> string \<Rightarrow> bool" where
  "re_match r s = (ends r ([], s) \<noteq> [])"

text \<open>\<open>[a-zA-Z0-9]\<close>, \<open>[a-zA-Z0-9-]\<close> and the group \<open>([a-zA-Z0-9-]{0,61}[a-zA-Z0-9])?\<close>\<close>

definition alnum :: regex where
  "alnum = Cls [Rg CHR ''a'' CHR ''z'', Rg CHR ''A'' CHR ''Z'', Rg CHR ''0'' CHR ''9'']"

definition alnum_hyphen :: regex where
  "alnum_hyphen =
     Cls [Rg CHR ''a'' CHR ''z'', Rg CHR ''A'' CHR ''Z'', Rg CHR ''0'' CHR ''9'', Ch CHR ''-'']"

definition label_tail :: regex where
  "label_tail = Repeat (seq [Repeat alnum_hyphen 0 (Some 61), alnum]) 0 (Some 1)"

definition HANDLE_REGEX :: regex where
  "HANDLE_REGEX =
     seq [Bol,
          Repeat (seq [alnum, label_tail, Lit CHR ''.'']) 1 None,
          Cls [Rg CHR ''a'' CHR ''z'', Rg CHR ''A'' CHR ''Z''],
          label_tail,
          Eol]"

definition DID_RE :: regex where
  "DID_RE =
     seq [Bol,
          Lit CHR ''d'', Lit CHR ''i'', Lit CHR ''d'', Lit CHR '':'',
          Repeat (Cls [Rg CHR ''a'' CHR ''z'']) 1 None, Lit CHR '':'',
          Repeat (Cls [Rg CHR ''a'' CHR ''z'', Rg CHR ''A'' CHR ''Z'', Rg CHR ''0'' CHR ''9'',
                       Ch CHR ''.'', Ch CHR ''_'', Ch CHR ''%'', Ch CHR ''-'']) 1 (Some 2048),
          NotBehind CHR '':'',
          Eol]"

subsection \<open>The network, the random source and the console\<close>

text \<open>
  An HTTP call either fails in transport (\<open>RequestError\<close>), or returns a status for
  which \<open>raise_for_status\<close> raises (\<open>HTTPStatusError\<close>, with the status and the body),
  or succeeds (\<open>Response\<close>). The body is \<open>None\<close> when \<open>.json()\<close> raises
  \<open>JSONDecodeError\<close> on it, and the parsed value otherwise. The network is an
  unknown function of the requests made so far and of the request. These are the
  outcomes the handlers of the program distinguish; other exceptions of the HTTP
  library (for a URL it rejects, say) are not modelled.
\<close>

datatype request =
    GET string
  | POST string "(string \<times> string option) list"

datatype http_result =
    HTTPStatusError nat "pyval option"
  | RequestError
  | Response "pyval option"

type_synonym network = "request list \<Rightarrow> request \<Rightarrow> http_result"

text \<open>
  The state of the world: the requests sent so far (oldest first), the number of
  random bytes drawn from the operating system, whose random source is an unknown
  infinite tape of bytes \<open>rnd\<close>, and the lines printed.
\<close>

record world =
  requests :: "request list"
  drawn :: nat
  stdout :: "string list"

definition http_get :: "network \<Rightarrow> string \<Rightarrow> world \<Rightarrow> http_result \<times> world" where
  "http_get net url w = (net (requests w) (GET url), w\<lparr>requests := requests w @ [GET url]\<rparr>)"

definition http_post ::
  "network \<Rightarrow> string \<Rightarrow> (string \<times> string option) list \<Rightarrow> world \<Rightarrow> http_result \<times> world" where
  "http_post net url data w =
     (net (requests w) (POST url data), w\<lparr>requests := requests w @ [POST url data]\<rparr>)"

definition token_bytes :: "(nat \<Rightarrow> byte) \<Rightarrow> nat \<Rightarrow> world \<Rightarrow> byte list \<times> world" where
  "token_bytes rnd n w = (map rnd [drawn w ..< drawn w + n], w\<lparr>drawn := drawn w + n\<rparr>)"

definition print :: "string \<Rightarrow> world \<Rightarrow> world" where
  "print line w = w\<lparr>stdout := stdout w @ [line]\<rparr>"

section \<open>Identity resolution\<close>

text \<open>
  The part of \<open>resolve_identity\<close> that derives the domain of a handle: the labels
  after the first one, joined by dots, when there are at least two labels; otherwise
  the function returns \<open>None\<close> (the branch that logs "Could not extract domain").
\<close>

definition extract_domain :: "string \<Rightarrow> string option" where
  "extract_domain username =
     (let parts = split_on CHR ''.'' username
      in if length parts \<ge> 2 then Some (join ''.'' (tl parts)) else None)"

definition resolve_identity :: "network \<Rightarrow> string \<Rightarrow> world \<Rightarrow> (exn + pyval) \<times> world" where
  "resolve_identity net username w =
     (if re_match HANDLE_REGEX username then
        (case extract_domain username of
           None \<Rightarrow> (Inr PNone, w)
         | Some domain_tld \<Rightarrow>
             let url = ''https://'' @ domain_tld
                       @ ''/xrpc/com.atproto.identity.resolveHandle?handle='' @ username;
                 (r, w') = http_get net url w
             in (case r of
                   Response (Some data) \<Rightarrow>
                     (ebind (py_get data ''did'')
                        (\<lambda>did. if truthy did then Inr did else Inr PNone), w')
                 | Response None \<Rightarrow> (Inr PNone, w')
                 | HTTPStatusError status body \<Rightarrow> (Inr PNone, w')
                 | RequestError \<Rightarrow> (Inr PNone, w')))
      else if re_match DID_RE username then (Inr (PStr username), w)
      else (Inr PNone, w))"

section \<open>Discovery\<close>

definition get_did_document ::
  "network \<Rightarrow> (pyval \<Rightarrow> string) \<Rightarrow> pyval \<Rightarrow> world \<Rightarrow> (exn + pyval \<times> pyval) \<times> world" where
  "get_did_document net render did w =
     (let url = ''https://plc.directory/'' @ fmt render did;
          (r, w') = http_get net url w
      in (case r of
            Response (Some did_document) \<Rightarrow>
              (ebind (py_contains ''service'' did_document) (\<lambda>has_service.
                 if has_service then
                   ebind (py_getitem did_document ''service'') (\<lambda>service.
                   ebind (py_len service) (\<lambda>n.
                     if n > 0 then
                       ebind (py_first service) (\<lambda>entry.
                       ebind (py_get entry ''serviceEndpoint'') (\<lambda>pds_url.
                         if truthy pds_url then Inr (did_document, pds_url)
                         else Inr (did_document, PNone)))
                     else Inr (did_document, PNone)))
                 else Inr (did_document, PNone)), w')
          | Response None \<Rightarrow> (Inr (PNone, PNone), w')
          | HTTPStatusError status body \<Rightarrow> (Inr (PNone, PNone), w')
          | RequestError \<Rightarrow> (Inr (PNone, PNone), w')))"

definition get_pds_metadata :: "network \<Rightarrow> pyval \<Rightarrow> world \<Rightarrow> (exn + pyval) \<times> world" where
  "get_pds_metadata net pds_url w =
     (if \<not> truthy pds_url then (Inr PNone, w)
      else
        (case pds_url of
           PStr s \<Rightarrow>
             let metadata_url = rstrip ''/'' s @ ''/.well-known/oauth-protected-resource'';
                 (r, w') = http_get net metadata_url w
             in (case r of
                   Response (Some metadata) \<Rightarrow> (Inr metadata, w')
                 | Response None \<Rightarrow> (Inr PNone, w')
                 | HTTPStatusError status body \<Rightarrow> (Inr PNone, w')
                 | RequestError \<Rightarrow> (Inr PNone, w'))
         | _ \<Rightarrow> (Inl AttributeError, w)))"

definition extract_auth_server :: "pyval \<Rightarrow> exn + pyval" where
  "extract_auth_server metadata =
     (if \<not> truthy metadata then Inr PNone
      else
        ebind (py_get metadata ''authorization_servers'') (\<lambda>auth_servers.
          if \<not> truthy auth_servers \<or> \<not> is_list auth_servers \<or> py_len auth_servers = Inr 0
          then Inr PNone
          else Inr auth_servers))"

text \<open>
  The \<open>for\<close> loop of \<open>get_auth_server_metadata\<close> over the remaining candidates. The
  metadata URL is built outside the \<open>try\<close>, so a candidate that is not a string
  raises.
\<close>

fun auth_server_loop ::
  "network \<Rightarrow> pyval list \<Rightarrow> world \<Rightarrow> (exn + pyval \<times> pyval \<times> pyval \<times> pyval) \<times> world" where
  "auth_server_loop net [] w = (Inr (PNone, PNone, PNone, PNone), w)"
| "auth_server_loop net (auth_server # rest) w =
     (case auth_server of
        PStr s \<Rightarrow>
          let metadata_url = rstrip ''/'' s @ ''/.well-known/oauth-authorization-server'';
              (r, w') = http_get net metadata_url w
          in (case r of
                Response (Some metadata) \<Rightarrow>
                  (case py_get metadata ''authorization_endpoint'' of
                     Inl e \<Rightarrow> (Inl e, w')
                   | Inr auth_endpoint \<Rightarrow>
                  (case py_get metadata ''token_endpoint'' of
                     Inl e \<Rightarrow> (Inl e, w')
                   | Inr token_endpoint \<Rightarrow>
                  (case py_get metadata ''pushed_authorization_request_endpoint'' of
                     Inl e \<Rightarrow> (Inl e, w')
                   | Inr par_endpoint \<Rightarrow>
                       if truthy auth_endpoint \<and> truthy token_endpoint
                       then (Inr (metadata, auth_endpoint, token_endpoint, par_endpoint), w')
                       else auth_server_loop net rest w')))
              | Response None \<Rightarrow> auth_server_loop net rest w'
              | HTTPStatusError status body \<Rightarrow> auth_server_loop net rest w'
              | RequestError \<Rightarrow> auth_server_loop net rest w')
      | _ \<Rightarrow> (Inl AttributeError, w))"

definition get_auth_server_metadata ::
  "network \<Rightarrow> pyval \<Rightarrow> world \<Rightarrow> (exn + pyval \<times> pyval \<times> pyval \<times> pyval) \<times> world" where
  "get_auth_server_metadata net auth_servers w =
     (if \<not> truthy auth_servers \<or> \<not> is_list auth_servers
      then (Inr (PNone, PNone, PNone, PNone), w)
      else
        (case auth_servers of
           PList candidates \<Rightarrow> auth_server_loop net candidates w
         | _ \<Rightarrow> (Inr (PNone, PNone, PNone, PNone), w)))"

section \<open>PKCE and state\<close>

definition generate_oauth_state :: "(nat \<Rightarrow> byte) \<Rightarrow> world \<Rightarrow> string \<times> world" where
  "generate_oauth_state rnd w = (let (bs, w') = token_bytes rnd 32 w in (hex bs, w'))"

definition generate_code_verifier ::
  "(nat \<Rightarrow> byte) \<Rightarrow> int \<Rightarrow> world \<Rightarrow> (exn + string) \<times> world" where
  "generate_code_verifier rnd length_arg w =
     (if length_arg < 43 \<or> length_arg > 128 then (Inl ValueError, w)
      else
        let (random_bytes, w') = token_bytes rnd (nat (length_arg * 3 div 4)) w;
            code_verifier = rstrip ''='' (urlsafe_b64encode random_bytes);
            code_verifier = take (nat length_arg) code_verifier
        in (Inr code_verifier, w'))"

text \<open>
  \<open>hashlib.sha256(bytes).digest()\<close> is the parameter \<open>sha256\<close>: the hash function
  belongs to the Python library, not to the program.
\<close>

definition generate_code_challenge :: "(byte list \<Rightarrow> byte list) \<Rightarrow> string \<Rightarrow> exn + string" where
  "generate_code_challenge sha256 code_verifier =
     ebind (encode_ascii code_verifier) (\<lambda>code_verifier_bytes.
       let hash_bytes = sha256 code_verifier_bytes
       in Inr (rstrip ''='' (urlsafe_b64encode hash_bytes)))"

section \<open>The pushed authorization request\<close>

text \<open>
  \<open>httpx.post\<close> accepts a string as the URL and raises \<open>TypeError\<close> on any other
  value. In the handler of \<open>HTTPStatusError\<close> the body of the error response is only
  logged, inside a \<open>try\<close> whose bare \<open>except\<close> swallows everything.
\<close>

definition send_par_request ::
  "network \<Rightarrow> pyval \<Rightarrow> string \<Rightarrow> string \<Rightarrow> string option \<Rightarrow> string option \<Rightarrow> string option
     \<Rightarrow> string \<Rightarrow> world \<Rightarrow> (exn + pyval \<times> pyval) \<times> world" where
  "send_par_request net par_endpoint code_challenge state login_hint client_id redirect_uri
       scope w =
     (if \<not> truthy par_endpoint then (Inr (PNone, PNone), w)
      else
        let params = [(''response_type'', Some ''code''),
                      (''code_challenge_method'', Some ''S256''),
                      (''scope'', Some scope),
                      (''client_id'', client_id),
                      (''redirect_uri'', redirect_uri),
                      (''code_challenge'', Some code_challenge),
                      (''state'', Some state)];
            params = (case login_hint of
                        None \<Rightarrow> params
                      | Some h \<Rightarrow> if h \<noteq> [] then params @ [(''login_hint'', Some h)] else params)
        in (case par_endpoint of
              PStr url \<Rightarrow>
                let (r, w') = http_post net url params w
                in (case r of
                      Response (Some data) \<Rightarrow>
                        (case py_get data ''request_uri'' of
                           Inl e \<Rightarrow> (Inl e, w')
                         | Inr request_uri \<Rightarrow>
                        (case py_get data ''expires_in'' of
                           Inl e \<Rightarrow> (Inl e, w')
                         | Inr expires_in \<Rightarrow>
                             if truthy request_uri then (Inr (request_uri, expires_in), w')
                             else (Inr (PNone, PNone), w')))
                    | Response None \<Rightarrow> (Inr (PNone, PNone), w')
                    | HTTPStatusError status body \<Rightarrow> (Inr (PNone, PNone), w')
                    | RequestError \<Rightarrow> (Inr (PNone, PNone), w'))
            | _ \<Rightarrow> (Inl TypeError, w)))"

section \<open>The orchestrator\<close>

text \<open>\<open>os.getenv(name) or exit(msg)\<close>, on the environment after \<open>load_dotenv()\<close>.\<close>

definition getenv_or_exit :: "(string \<Rightarrow> string option) \<Rightarrow> string \<Rightarrow> string \<Rightarrow> exn + string" where
  "getenv_or_exit env name msg =
     (case env name of
        None \<Rightarrow> Inl (SystemExit msg)
      | Some v \<Rightarrow> if v \<noteq> [] then Inr v else Inl (SystemExit msg))"

text \<open>
  The authorization URL that \<open>main\<close> builds. The f-string of the source runs over
  three lines that end in a backslash: the line break is dropped, the twelve spaces
  that indent each continuation line stay in the string.
\<close>

definition auth_url :: "(pyval \<Rightarrow> string) \<Rightarrow> pyval \<Rightarrow> pyval \<Rightarrow> string" where
  "auth_url render auth_endpoint request_uri =
     fmt render auth_endpoint @ ''?''
     @ ''            client_id=https://madrilenyer.neocities.org/bsky/oauth/client-metadata.json''
     @ ''            &request_uri='' @ fmt render request_uri"

definition main ::
  "(string \<Rightarrow> string option) \<Rightarrow> network \<Rightarrow> (nat \<Rightarrow> byte) \<Rightarrow> (byte list \<Rightarrow> byte list)
     \<Rightarrow> (pyval \<Rightarrow> string) \<Rightarrow> world \<Rightarrow> (exn + bool) \<times> world" where
  "main env net rnd sha256 render w =
     (case getenv_or_exit env ''USERNAME'' ''Missing USERNAME'' of
        Inl e \<Rightarrow> (Inl e, w)
      | Inr username \<Rightarrow>
     (case getenv_or_exit env ''APP_URL'' ''Missing APP_URL'' of
        Inl e \<Rightarrow> (Inl e, w)
      | Inr app_url \<Rightarrow>
     (case resolve_identity net username w of
        (Inl e, w1) \<Rightarrow> (Inl e, w1)
      | (Inr user_did, w1) \<Rightarrow>
     if \<not> truthy user_did then (Inr False, w1) else
     (case get_did_document net render user_did w1 of
        (Inl e, w2) \<Rightarrow> (Inl e, w2)
      | (Inr (did_document, pds_url), w2) \<Rightarrow>
     if \<not> truthy did_document \<or> \<not> truthy pds_url then (Inr False, w2) else
     (case get_pds_metadata net pds_url w2 of
        (Inl e, w3) \<Rightarrow> (Inl e, w3)
      | (Inr pds_metadata, w3) \<Rightarrow>
     if \<not> truthy pds_metadata then (Inr False, w3) else
     (case extract_auth_server pds_metadata of
        Inl e \<Rightarrow> (Inl e, w3)
      | Inr auth_servers \<Rightarrow>
     if \<not> truthy auth_servers then (Inr False, w3) else
     (case get_auth_server_metadata net auth_servers w3 of
        (Inl e, w4) \<Rightarrow> (Inl e, w4)
      | (Inr (auth_metadata, auth_endpoint, token_endpoint, par_endpoint), w4) \<Rightarrow>
     if \<not> truthy auth_metadata then (Inr False, w4) else
     (let w5 = fold print
                 [''Auth Server Endpoints:'',
                  ''  Authorization: '' @ fmt render auth_endpoint,
                  ''  Token: '' @ fmt render token_endpoint,
                  ''  PAR: '' @ (if truthy par_endpoint then fmt render par_endpoint
                                 else ''Not available'')] w4;
          (oauth_state, w6) = generate_oauth_state rnd w5;
          w6 = print (''Generated OAuth state: '' @ take 10 oauth_state @ ''... (truncated)'') w6
      in
     (case generate_code_verifier rnd 128 w6 of
        (Inl e, w7) \<Rightarrow> (Inl e, w7)
      | (Inr code_verifier, w7) \<Rightarrow>
     (let w7 = print (''Generated code_verifier: '' @ take 10 code_verifier
                      @ ''... (truncated)'') w7
      in
     (case generate_code_challenge sha256 code_verifier of
        Inl e \<Rightarrow> (Inl e, w7)
      | Inr code_challenge \<Rightarrow>
     (let w8 = print (''Generated code_challenge: '' @ take 10 code_challenge
                      @ ''... (truncated)'') w7
      in
     if truthy par_endpoint then
       (case send_par_request net par_endpoint code_challenge oauth_state (Some username)
               (Some (''https://'' @ app_url @ ''/oauth/client-metadata.json''))
               (Some (''https://'' @ app_url @ ''/oauth/callback/''))
               ''atproto transition:generic'' w8 of
          (Inl e, w9) \<Rightarrow> (Inl e, w9)
        | (Inr (request_uri, expires_in), w9) \<Rightarrow>
            if truthy request_uri then
              (Inr True,
               fold print
                 [''PAR request successful!'',
                  ''Request URI: '' @ fmt render request_uri,
                  ''Expires in: '' @ fmt render expires_in @ '' seconds'',
                  CHR 0x0A # ''Authorization URL:'',
                  auth_url render auth_endpoint request_uri,
                  CHR 0x0A # ''Open this URL in a browser to complete the authorization process.'']
                 w9)
            else (Inr False, print ''PAR request failed. Check the logs for details.'' w9))
     else (Inr False, w8)))))))))))))"

section \<open>Specification-level notions\<close>

text \<open>The unreserved URL characters of RFC 3986: letters, digits, \<open>-\<close>, \<open>.\<close>, \<open>_\<close>, \<open>~\<close>.\<close>

definition unreserved :: "char \<Rightarrow> bool" where
  "unreserved c \<longleftrightarrow>
     c \<in> set ''ABCDEFGHIJKLMNOPQRSTUVWXYZabcdefghijklmnopqrstuvwxyz0123456789-._~''"

text \<open>
  Base64url without padding, as RFC 4648 section 3.2 allows: the same digits, and a
  final group of one or two bytes gives two or three characters.
\<close>

fun base64url_nopad :: "byte list \<Rightarrow> string" where
  "base64url_nopad [] = []"
| "base64url_nopad [a] =
     (let n = unat a * 65536
      in [digit6 n 3, digit6 n 2])"
| "base64url_nopad [a, b] =
     (let n = unat a * 65536 + unat b * 256
      in [digit6 n 3, digit6 n 2, digit6 n 1])"
| "base64url_nopad (a # b # c # rest) =
     (let n = unat a * 65536 + unat b * 256 + unat c
      in [digit6 n 3, digit6 n 2, digit6 n 1, digit6 n 0]
         @ base64url_nopad rest)"

text \<open>The characters a pattern can consume.\<close>

primrec alphabet :: "regex \<Rightarrow> char set" where
  "alphabet (Lit c) = {c}"
| "alphabet (Cls items) = {x. list_ex (in_item x) items}"
| "alphabet (Seq a b) = alphabet a \<union> alphabet b"
| "alphabet (Repeat r lo hi) = alphabet r"
| "alphabet Bol = {}"
| "alphabet Eol = {}"
| "alphabet (NotBehind c) = {}"
| "alphabet Eps = {}"

text \<open>
  \<open>consumes A p q\<close>: position \<open>q\<close> is reached from \<open>p\<close> by reading characters of
  \<open>A\<close> only.
\<close>

definition consumes :: "char set \<Rightarrow> pos \<Rightarrow> pos \<Rightarrow> bool" where
  "consumes A p q \<longleftrightarrow> (\<exists>u. snd p = u @ snd q \<and> fst q = rev u @ fst p \<and> set u \<subseteq> A)"

text \<open>
  Notions for stating what the loop over the authorization servers does: the
  metadata has both required endpoints (the test of the source, truth of the two
  values); the answer of a candidate makes the loop go on to the next candidate;
  the URL requested for a candidate; the requests for a list of candidates.
\<close>

fun has_endpoints :: "pyval \<Rightarrow> bool" where
  "has_endpoints (PDict kvs) =
     (truthy (case map_of kvs ''authorization_endpoint'' of None \<Rightarrow> PNone | Some v \<Rightarrow> v) \<and>
      truthy (case map_of kvs ''token_endpoint'' of None \<Rightarrow> PNone | Some v \<Rightarrow> v))"
| "has_endpoints _ = False"

fun skipped :: "http_result \<Rightarrow> bool" where
  "skipped (HTTPStatusError status body) = True"
| "skipped RequestError = True"
| "skipped (Response None) = True"
| "skipped (Response (Some (PDict kvs))) = (\<not> has_endpoints (PDict kvs))"
| "skipped (Response (Some v)) = False"

definition metadata_url :: "string \<Rightarrow> string" where
  "metadata_url s = rstrip ''/'' s @ ''/.well-known/oauth-authorization-server''"

definition sent :: "string list \<Rightarrow> request list" where
  "sent ss = map (\<lambda>s. GET (metadata_url s)) ss"

section \<open>Example inputs\<close>

text \<open>
  The end-to-end scenario of the specification: the handle \<open>alice.example.com\<close>
  resolves to \<open>did:plc:abc123\<close>, whose document names the PDS
  \<open>https://pds.example.org\<close>, whose metadata names the authorization server
  \<open>https://auth.example.org\<close>. \<open>example_net k m\<close> answers the first \<open>k\<close> requests in
  this way, with \<open>m\<close> as the PDS metadata, and fails every later request.
\<close>

definition example_env :: "string \<Rightarrow> string \<Rightarrow> string option" where
  "example_env username name =
     (if name = ''USERNAME'' then Some username
      else if name = ''APP_URL'' then Some ''app.example.com''
      else None)"

definition example_answer :: "pyval \<Rightarrow> request \<Rightarrow> http_result" where
  "example_answer pds_metadata r =
     (case r of
        GET u \<Rightarrow>
          if u = ''https://example.com/xrpc/com.atproto.identity.resolveHandle?handle=alice.example.com''
          then Response (Some (PDict [(''did'', PStr ''did:plc:abc123'')]))
          else if u = ''https://plc.directory/did:plc:abc123''
          then Response (Some (PDict [(''service'',
                  PList [PDict [(''serviceEndpoint'', PStr ''https://pds.example.org'')]])]))
          else if u = ''https://pds.example.org/.well-known/oauth-protected-resource''
          then Response (Some pds_metadata)
          else if u = ''https://auth.example.org/.well-known/oauth-authorization-server''
          then Response (Some (PDict
                 [(''authorization_endpoint'', PStr ''https://auth.example.org/oauth/authorize''),
                  (''token_endpoint'', PStr ''https://auth.example.org/oauth/token''),
                  (''pushed_authorization_request_endpoint'',
                   PStr ''https://auth.example.org/oauth/par'')]))
          else HTTPStatusError 404 None
      | POST u d \<Rightarrow>
          if u = ''https://auth.example.org/oauth/par''
          then Response (Some (PDict
                 [(''request_uri'', PStr ''urn:ietf:params:oauth:request_uri:abc''),
                  (''expires_in'', PInt 90)]))
          else HTTPStatusError 404 None)"

definition example_net :: "nat \<Rightarrow> pyval \<Rightarrow> network" where
  "example_net k pds_metadata h r =
     (if length h < k then example_answer pds_metadata r else RequestError)"

definition example_pds_metadata :: pyval where
  "example_pds_metadata = PDict [(''authorization_servers'', PList [PStr ''https://auth.example.org''])]"

section \<open>Base64 facts\<close>

lemma length_urlsafe_b64encode:
  "length (urlsafe_b64encode bs) = 4 * ((length bs + 2) div 3)"
proof (induction bs rule: urlsafe_b64encode.induct)
  case (4 a b c rest)
  have "(5 + length rest) div 3 = Suc ((Suc (Suc (length rest))) div 3)" by arith
  with 4 show ?case by (simp add: Let_def)
qed (simp_all add: Let_def)

lemma length_base64url_nopad:
  "length (base64url_nopad bs) = (4 * length bs + 2) div 3"
proof (induction bs rule: base64url_nopad.induct)
  case (4 a b c rest)
  have "(4 * length rest + 14) div 3 = 4 + (4 * length rest + 2) div 3" by arith
  with 4 show ?case by (simp add: Let_def)
qed (simp_all add: Let_def)

lemma length_b64_alphabet: "length b64_alphabet = 64"
  by (simp add: b64_alphabet_def)

lemma digit6_in_alphabet: "digit6 n k \<in> set b64_alphabet"
  unfolding digit6_def by (rule nth_mem) (simp add: length_b64_alphabet)

lemma base64url_nopad_alphabet: "set (base64url_nopad bs) \<subseteq> set b64_alphabet"
  by (induction bs rule: base64url_nopad.induct)
     (simp_all add: Let_def digit6_in_alphabet)

lemma alphabet_all_unreserved: "list_all unreserved b64_alphabet"
  by code_simp

lemma alphabet_unreserved: "c \<in> set b64_alphabet \<Longrightarrow> unreserved c"
  using alphabet_all_unreserved by (simp add: list_all_iff)

lemma pad_not_in_alphabet: "CHR ''='' \<notin> set b64_alphabet"
  by (simp add: b64_alphabet_def)

lemma urlsafe_b64encode_padding:
  "urlsafe_b64encode bs =
     base64url_nopad bs @ replicate ((3 - length bs mod 3) mod 3) (CHR ''='')"
proof (induction bs rule: urlsafe_b64encode.induct)
  case (4 a b c rest)
  then show ?case by (simp add: Let_def)
qed (simp_all add: Let_def numeral_2_eq_2)

lemma rstrip_no_trailing:
  "set s \<inter> set cs = {} \<Longrightarrow> rstrip cs s = s"
proof -
  assume a: "set s \<inter> set cs = {}"
  have "dropWhile (\<lambda>c. c \<in> set cs) (rev s) = rev s"
    by (cases "rev s") (use a in auto)
  then show ?thesis by (simp add: rstrip_def)
qed

lemma rstrip_padding:
  "set s \<inter> set cs = {} \<Longrightarrow> c \<in> set cs \<Longrightarrow> rstrip cs (s @ replicate k c) = s"
proof -
  assume a: "set s \<inter> set cs = {}" and c: "c \<in> set cs"
  have "dropWhile (\<lambda>c. c \<in> set cs) (replicate k c @ rev s) = dropWhile (\<lambda>c. c \<in> set cs) (rev s)"
    by (rule dropWhile_append2) (use c in auto)
  moreover have "dropWhile (\<lambda>c. c \<in> set cs) (rev s) = rev s"
    by (cases "rev s") (use a in auto)
  ultimately show ?thesis by (simp add: rstrip_def)
qed

lemma rstrip_urlsafe_b64encode:
  "rstrip ''='' (urlsafe_b64encode bs) = base64url_nopad bs"
proof -
  have "set (base64url_nopad bs) \<inter> set ''='' = {}"
    using base64url_nopad_alphabet [of bs] pad_not_in_alphabet by auto
  then show ?thesis
    by (simp only: urlsafe_b64encode_padding) (rule rstrip_padding, simp_all)
qed

section \<open>Properties of the code verifier\<close>

lemma generate_code_verifier_in_range:
  assumes "43 \<le> n" "n \<le> 128"
  shows "generate_code_verifier rnd n w =
           (Inr (take (nat n) (base64url_nopad (map rnd [drawn w ..< drawn w + nat (n * 3 div 4)]))),
            w\<lparr>drawn := drawn w + nat (n * 3 div 4)\<rparr>)"
  using assms
  by (simp add: generate_code_verifier_def token_bytes_def rstrip_urlsafe_b64encode)

lemma nat_floor_three_quarters: "nat (int m * 3 div 4) = m * 3 div 4"
proof -
  have "int m * 3 div 4 = int (m * 3 div 4)" by (simp add: zdiv_int)
  then show ?thesis by simp
qed

lemma int_mod4_eq_1: "(int m mod 4 = 1) = (m mod 4 = 1)"
proof -
  have "int m mod 4 = int (m mod 4)" by (simp add: zmod_int)
  then show ?thesis by simp
qed

text \<open>
  The number of unpadded base64 characters of \<open>m * 3 div 4\<close> bytes, by the residue
  of \<open>m\<close> modulo 4: one character is missing exactly when the residue is 1.
\<close>

lemma chars_of_floor_bytes:
  assumes "r < (4::nat)"
  shows "(4 * ((4 * k + r) * 3 div 4) + 2) div 3 = 4 * k + (if r = 1 then 0 else r)"
proof -
  consider "r = 0" | "r = 1" | "r = 2" | "r = 3" using assms by linarith
  then show ?thesis
  proof cases
    case 1
    have "(4 * k) * 3 div 4 = 3 * k" by simp
    moreover have "(4 * (3 * k) + 2) div 3 = 4 * k" by presburger
    ultimately show ?thesis using 1 by simp
  next
    case 2
    have "(4 * k + 1) * 3 div 4 = 3 * k" by presburger
    moreover have "(4 * (3 * k) + 2) div 3 = 4 * k" by presburger
    ultimately show ?thesis using 2 by simp
  next
    case 3
    have "(4 * k + 2) * 3 div 4 = 3 * k + 1" by presburger
    moreover have "(4 * (3 * k + 1) + 2) div 3 = 4 * k + 2" by presburger
    ultimately show ?thesis using 3 by simp
  next
    case 4
    have "(4 * k + 3) * 3 div 4 = 3 * k + 2" by presburger
    moreover have "(4 * (3 * k + 2) + 2) div 3 = 4 * k + 3" by presburger
    ultimately show ?thesis using 4 by simp
  qed
qed

lemma min_chars_of_floor_bytes:
  "min m ((4 * (m * 3 div 4) + 2) div 3) = (if m mod 4 = 1 then m - 1 else (m::nat))"
proof -
  define k r where "k = m div 4" and "r = m mod 4"
  have m: "m = 4 * k + r" and r: "r < 4" by (simp_all add: k_def r_def)
  show ?thesis
    unfolding m chars_of_floor_bytes [OF r] using r by (simp add: min_def)
qed

lemma generate_code_verifier_length:
  assumes "43 \<le> n" "n \<le> 128" "fst (generate_code_verifier rnd n w) = Inr s"
  shows "length s = (if n mod 4 = 1 then nat n - 1 else nat n)"
proof -
  define m where "m = nat n"
  have n: "n = int m" using assms(1) by (simp add: m_def)
  have s: "s = take (nat n) (base64url_nopad (map rnd [drawn w ..< drawn w + nat (n * 3 div 4)]))"
    using assms by (simp add: generate_code_verifier_in_range)
  have "length s = min m ((4 * (m * 3 div 4) + 2) div 3)"
    unfolding s n nat_floor_three_quarters
    by (simp add: length_base64url_nopad min.commute)
  also have "\<dots> = (if m mod 4 = 1 then m - 1 else m)"
    by (rule min_chars_of_floor_bytes)
  finally show ?thesis
    unfolding n int_mod4_eq_1 by simp
qed

lemma generate_code_verifier_charset:
  assumes "fst (generate_code_verifier rnd n w) = Inr s" "c \<in> set s"
  shows "unreserved c"
proof -
  have "43 \<le> n \<and> n \<le> 128"
    using assms(1) by (auto simp: generate_code_verifier_def split: if_splits)
  then have "s = take (nat n) (base64url_nopad (map rnd [drawn w ..< drawn w + nat (n * 3 div 4)]))"
    using assms(1) by (simp add: generate_code_verifier_in_range)
  then have "c \<in> set (base64url_nopad (map rnd [drawn w ..< drawn w + nat (n * 3 div 4)]))"
    using assms(2) by (auto dest: in_set_takeD)
  then show ?thesis
    using base64url_nopad_alphabet alphabet_unreserved by blast
qed

text \<open>
  C1. The claim: for every length in [43,128] the verifier has exactly that many
  characters. The code draws \<open>length * 3 // 4\<close> bytes (rounded down, not up), so the
  encoding of the 33 bytes drawn for length 45 has only 44 characters and the
  truncation to 45 has nothing to cut: the verifier returned for 45 has length 44,
  whatever the random bytes are.
\<close>

theorem generate_code_verifier_45_short:
  "map_sum id length (fst (generate_code_verifier rnd 45 w)) = Inr 44"
  by (simp add: generate_code_verifier_in_range length_base64url_nopad)

text \<open>
  C8. \<open>generate_code_verifier\<close> raises exactly when the requested length is outside
  [43,128]; the exception is ValueError and is raised before any random byte is
  drawn (the world is unchanged); inside the range the call returns a string.
\<close>

theorem generate_code_verifier_raises_iff:
  "(isl (fst (generate_code_verifier rnd n w)) \<longleftrightarrow> n < 43 \<or> n > 128) \<and>
   (n < 43 \<or> n > 128 \<longrightarrow> generate_code_verifier rnd n w = (Inl ValueError, w)) \<and>
   (43 \<le> n \<and> n \<le> 128 \<longrightarrow> (\<exists>s. fst (generate_code_verifier rnd n w) = Inr s))"
  by (auto simp: generate_code_verifier_def token_bytes_def Let_def)

theorem generate_code_verifier_raises_iff_witness:
  "generate_code_verifier (\<lambda>_. 0) 42 \<lparr>requests = [], drawn = 7, stdout = []\<rparr> = (Inl ValueError, \<lparr>requests = [], drawn = 7, stdout = []\<rparr>) \<and>
   generate_code_verifier (\<lambda>_. 0) 129 \<lparr>requests = [], drawn = 7, stdout = []\<rparr> = (Inl ValueError, \<lparr>requests = [], drawn = 7, stdout = []\<rparr>) \<and>
   (\<exists>s. fst (generate_code_verifier (\<lambda>_. 0) 43 \<lparr>requests = [], drawn = 7, stdout = []\<rparr>) = Inr s) \<and>
   \<not> isl (fst (generate_code_verifier (\<lambda>_. 0) 128 \<lparr>requests = [], drawn = 7, stdout = []\<rparr>))"
  using generate_code_verifier_raises_iff [of "\<lambda>_. 0" 42 "\<lparr>requests = [], drawn = 7, stdout = []\<rparr>"]
        generate_code_verifier_raises_iff [of "\<lambda>_. 0" 129 "\<lparr>requests = [], drawn = 7, stdout = []\<rparr>"]
        generate_code_verifier_raises_iff [of "\<lambda>_. 0" 43 "\<lparr>requests = [], drawn = 7, stdout = []\<rparr>"]
        generate_code_verifier_raises_iff [of "\<lambda>_. 0" 128 "\<lparr>requests = [], drawn = 7, stdout = []\<rparr>"]
  by simp

section \<open>Facts about the two patterns\<close>

lemma consumes_refl: "consumes A p p"
  by (simp add: consumes_def)

lemma consumes_trans:
  assumes "consumes A p q" "consumes B q r"
  shows "consumes (A \<union> B) p r"
proof -
  obtain u where u: "snd p = u @ snd q" "fst q = rev u @ fst p" "set u \<subseteq> A"
    using assms(1) by (auto simp: consumes_def)
  obtain v where v: "snd q = v @ snd r" "fst r = rev v @ fst q" "set v \<subseteq> B"
    using assms(2) by (auto simp: consumes_def)
  have "snd p = (u @ v) @ snd r" "fst r = rev (u @ v) @ fst p" "set (u @ v) \<subseteq> A \<union> B"
    using u v by auto
  then show ?thesis unfolding consumes_def by blast
qed

lemma consumes_mono: "consumes A p q \<Longrightarrow> A \<subseteq> B \<Longrightarrow> consumes B p q"
  unfolding consumes_def by blast

lemma consumes_trans_same: "consumes A p q \<Longrightarrow> consumes A q r \<Longrightarrow> consumes A p r"
  using consumes_trans [of A p q A r] by simp

lemma iter_consumes:
  assumes step: "\<And>p q. q \<in> set (f p) \<Longrightarrow> consumes A p q"
  shows "q \<in> set (iter f lo hi p) \<Longrightarrow> consumes A p q"
proof (induction hi arbitrary: lo p)
  case 0
  then show ?case by (auto simp: consumes_refl split: if_splits)
next
  case (Suc hi)
  from Suc.prems consider "q = p" | m where "m \<in> set (f p)" "q \<in> set (iter f (lo - 1) hi m)"
    by (auto split: if_splits)
  then show ?case
  proof cases
    case 1
    then show ?thesis by (simp add: consumes_refl)
  next
    case 2
    then have "consumes A p m" "consumes A m q"
      using step Suc.IH by blast+
    then show ?thesis by (rule consumes_trans_same)
  qed
qed

lemma ends_consumes: "q \<in> set (ends r p) \<Longrightarrow> consumes (alphabet r) p q"
proof (induction r arbitrary: p q)
  case (Lit c)
  then show ?case
    by (cases p) (auto simp: consumes_def split: list.splits if_splits)
next
  case (Cls items)
  then show ?case
    by (cases p) (auto simp: consumes_def split: list.splits if_splits)
next
  case (Seq a b)
  then obtain m where "m \<in> set (ends a p)" "q \<in> set (ends b m)" by auto
  then have "consumes (alphabet a) p m" "consumes (alphabet b) m q"
    using Seq.IH by blast+
  then show ?case using consumes_trans [of "alphabet a" p m "alphabet b" q] by simp
next
  case (Repeat r lo hi)
  then show ?case using iter_consumes [of "ends r" "alphabet r"] by simp
next
  case (NotBehind c)
  then show ?case by (auto simp: consumes_refl split: list.splits if_splits)
qed (auto simp: consumes_refl split: if_splits)


lemma consumes_start:
  assumes "consumes A ([], s) q"
  shows "s = rev (fst q) @ snd q" "set (fst q) \<subseteq> A"
proof -
  obtain u where u: "s = u @ snd q" "fst q = rev u" "set u \<subseteq> A"
    using assms by (auto simp: consumes_def)
  show "s = rev (fst q) @ snd q" using u by simp
  show "set (fst q) \<subseteq> A" using u by simp
qed

lemma consumes_keeps: "consumes A p q \<Longrightarrow> set (fst p) \<subseteq> set (fst q)"
  by (auto simp: consumes_def)

lemma in_ends_seq_Cons:
  "q \<in> set (ends (seq (r # rs)) p) \<longleftrightarrow> (\<exists>m\<in>set (ends r p). q \<in> set (ends (seq rs) m))"
  by (simp add: seq_def)

lemma in_ends_seq_Nil: "q \<in> set (ends (seq []) p) \<longleftrightarrow> q = p"
  by (simp add: seq_def)

lemma in_ends_Lit: "q \<in> set (ends (Lit c) p) \<Longrightarrow> snd p = c # snd q \<and> fst q = c # fst p"
  by (auto split: list.splits if_splits)

lemma in_ends_Bol: "q \<in> set (ends Bol p) \<Longrightarrow> q = p"
  by (auto split: if_splits)

lemma in_ends_Eol: "q \<in> set (ends Eol p) \<Longrightarrow> q = p \<and> (snd p = [] \<or> snd p = [CHR 0x0A])"
  by (auto split: if_splits)

lemma iter_at_least_once:
  "q \<in> set (iter f (Suc lo) hi p) \<Longrightarrow> \<exists>m\<in>set (f p). \<exists>hi'. q \<in> set (iter f lo hi' m)"
  by (cases hi) auto

text \<open>The matcher on some strings, with the answers of Python's \<open>re.match\<close>.\<close>

lemma handle_examples:
  "re_match HANDLE_REGEX ''alice.example.com''"
  "\<not> re_match HANDLE_REGEX ''alice''"
  "\<not> re_match HANDLE_REGEX ''a.b-''"
  "\<not> re_match HANDLE_REGEX ''a..b''"
  "re_match HANDLE_REGEX (''a.b'' @ [CHR 0x0A])"
  by code_simp+

lemma did_examples:
  "re_match DID_RE ''did:plc:abc123''"
  "\<not> re_match DID_RE ''did:PLC:abc''"
  "\<not> re_match DID_RE ''did:web:a:b''"
  "re_match DID_RE (''did:plc:abc'' @ [CHR 0x0A])"
  by code_simp+

lemma colon_not_in_handle_alphabet: "CHR '':'' \<notin> alphabet HANDLE_REGEX"
  by (simp add: HANDLE_REGEX_def seq_def label_tail_def alnum_def alnum_hyphen_def)

lemma handle_match_end:
  assumes "re_match HANDLE_REGEX s"
  shows "\<exists>q. consumes (alphabet HANDLE_REGEX) ([], s) q \<and> (snd q = [] \<or> snd q = [CHR 0x0A])
             \<and> CHR ''.'' \<in> set (fst q)"
proof -
  let ?G = "seq [alnum, label_tail, Lit CHR ''.'']"
  obtain q where q: "q \<in> set (ends HANDLE_REGEX ([], s))"
    using assms by (cases "ends HANDLE_REGEX ([], s)") (auto simp: re_match_def)
  then obtain m1 m2 m3 m4 where
    m1: "m1 \<in> set (ends Bol ([], s))" and
    m2: "m2 \<in> set (ends (Repeat ?G 1 None) m1)" and
    m3: "m3 \<in> set (ends (Cls [Rg CHR ''a'' CHR ''z'', Rg CHR ''A'' CHR ''Z'']) m2)" and
    m4: "m4 \<in> set (ends label_tail m3)" and
    m5: "q \<in> set (ends Eol m4)"
    unfolding HANDLE_REGEX_def by (auto simp only: in_ends_seq_Cons in_ends_seq_Nil)
  have end_ok: "snd q = [] \<or> snd q = [CHR 0x0A]" and q4: "q = m4"
    using in_ends_Eol [OF m5] by auto
  have "m2 \<in> set (iter (ends ?G) (Suc 0) (max 1 (length (snd m1))) m1)"
    using m2 by simp
  from iter_at_least_once [OF this] obtain g hi' where g: "g \<in> set (ends ?G m1)" and
    g2: "m2 \<in> set (iter (ends ?G) 0 hi' g)"
    by blast
  from g obtain a b where "a \<in> set (ends alnum m1)" "b \<in> set (ends label_tail a)"
    and dot: "g \<in> set (ends (Lit CHR ''.'') b)"
    by (auto simp only: in_ends_seq_Cons in_ends_seq_Nil)
  have "CHR ''.'' \<in> set (fst g)" using in_ends_Lit [OF dot] by simp
  moreover have "consumes (alphabet ?G) g m2"
    using g2 iter_consumes [of "ends ?G" "alphabet ?G" m2 0 hi' g] ends_consumes by blast
  moreover have "consumes (alphabet (Cls [Rg CHR ''a'' CHR ''z'', Rg CHR ''A'' CHR ''Z''])) m2 m3"
    using m3 by (rule ends_consumes)
  moreover have "consumes (alphabet label_tail) m3 m4"
    using m4 by (rule ends_consumes)
  ultimately have "CHR ''.'' \<in> set (fst m4)"
    using consumes_keeps by blast
  moreover have "consumes (alphabet HANDLE_REGEX) ([], s) q"
    using q by (rule ends_consumes)
  ultimately show ?thesis using end_ok q4 by blast
qed

lemma handle_has_dot:
  assumes "re_match HANDLE_REGEX s"
  shows "CHR ''.'' \<in> set s"
proof -
  obtain q where q: "consumes (alphabet HANDLE_REGEX) ([], s) q" "CHR ''.'' \<in> set (fst q)"
    using handle_match_end [OF assms] by blast
  have "s = rev (fst q) @ snd q" using q(1) by (rule consumes_start)
  then have "set (fst q) \<subseteq> set s" by (metis set_append set_rev Un_upper1)
  then show ?thesis using q(2) by blast
qed

lemma handle_no_colon:
  assumes "re_match HANDLE_REGEX s"
  shows "CHR '':'' \<notin> set s"
proof -
  obtain q where q: "consumes (alphabet HANDLE_REGEX) ([], s) q"
    "snd q = [] \<or> snd q = [CHR 0x0A]"
    using handle_match_end [OF assms] by blast
  have s: "s = rev (fst q) @ snd q" and A: "set (fst q) \<subseteq> alphabet HANDLE_REGEX"
    using consumes_start [OF q(1)] by simp_all
  have "CHR '':'' \<notin> set (fst q)" using A colon_not_in_handle_alphabet by blast
  moreover have "CHR '':'' \<notin> set (snd q)" using q(2) by auto
  ultimately have "CHR '':'' \<notin> set (rev (fst q) @ snd q)" by simp
  then show ?thesis using s by simp
qed

lemma did_prefix:
  assumes "re_match DID_RE s"
  shows "\<exists>t. s = ''did:'' @ t"
proof -
  obtain q where q: "q \<in> set (ends DID_RE ([], s))"
    using assms by (cases "ends DID_RE ([], s)") (auto simp: re_match_def)
  then obtain m0 m1 m2 m3 m4 where
    m0: "m0 \<in> set (ends Bol ([], s))" and
    m1: "m1 \<in> set (ends (Lit CHR ''d'') m0)" and
    m2: "m2 \<in> set (ends (Lit CHR ''i'') m1)" and
    m3: "m3 \<in> set (ends (Lit CHR ''d'') m2)" and
    m4: "m4 \<in> set (ends (Lit CHR '':'') m3)"
    unfolding DID_RE_def by (auto simp only: in_ends_seq_Cons in_ends_seq_Nil)
  have "m0 = ([], s)" using m0 by (rule in_ends_Bol)
  then have "s = CHR ''d'' # CHR ''i'' # CHR ''d'' # CHR '':'' # snd m4"
    using in_ends_Lit [OF m1] in_ends_Lit [OF m2] in_ends_Lit [OF m3] in_ends_Lit [OF m4]
    by simp
  then show ?thesis by simp
qed

lemma handle_did_disjoint: "\<not> (re_match HANDLE_REGEX s \<and> re_match DID_RE s)"
proof
  assume a: "re_match HANDLE_REGEX s \<and> re_match DID_RE s"
  then obtain t where "s = ''did:'' @ t" using did_prefix by blast
  then have "CHR '':'' \<in> set s" by simp
  then show False using a handle_no_colon by blast
qed

section \<open>Splitting a handle\<close>

lemma split_on_nonempty: "split_on c s \<noteq> []"
  by (induction s) auto

lemma join_Cons: "ps \<noteq> [] \<Longrightarrow> join sep (p # ps) = p @ sep @ join sep ps"
  by (cases ps) auto

lemma join_split_on: "join [c] (split_on c s) = s"
proof (induction s)
  case Nil
  then show ?case by simp
next
  case (Cons x xs)
  obtain p ps where r: "split_on c xs = p # ps"
    using split_on_nonempty [of c xs] by (cases "split_on c xs") auto
  show ?case
  proof (cases "x = c")
    case True
    then show ?thesis using Cons r by (simp add: join_Cons)
  next
    case False
    then show ?thesis using Cons r by (cases ps) auto
  qed
qed

lemma length_split_on: "length (split_on c s) = Suc (length (filter (\<lambda>x. x = c) s))"
proof (induction s)
  case Nil
  then show ?case by simp
next
  case (Cons x xs)
  obtain p ps where r: "split_on c xs = p # ps"
    using split_on_nonempty [of c xs] by (cases "split_on c xs") auto
  show ?case using Cons r by auto
qed

lemma split_on_first:
  "c \<in> set s \<Longrightarrow>
     s = hd (split_on c s) @ c # join [c] (tl (split_on c s)) \<and> c \<notin> set (hd (split_on c s))"
proof (induction s)
  case Nil
  then show ?case by simp
next
  case (Cons x xs)
  show ?case
  proof (cases "x = c")
    case True
    then show ?thesis by (simp add: join_split_on)
  next
    case False
    then have "c \<in> set xs" using Cons.prems by simp
    then show ?thesis using Cons.IH False by auto
  qed
qed

lemma two_parts: "c \<in> set s \<Longrightarrow> 2 \<le> length (split_on c s)"
proof -
  assume "c \<in> set s"
  then have "filter (\<lambda>x. x = c) s \<noteq> []" by (auto simp: filter_empty_conv)
  then have "0 < length (filter (\<lambda>x. x = c) s)" by blast
  then show ?thesis unfolding length_split_on by linarith
qed

section \<open>Properties of identity resolution\<close>

text \<open>
  C9. Every string that the handle pattern accepts contains a dot, so splitting it
  on dots gives at least two parts: the branch of \<open>resolve_identity\<close> that returns
  \<open>None\<close> for fewer than two parts is never taken (\<open>extract_domain\<close> is not \<open>None\<close>),
  and the derived domain is the input with its first dot-separated label removed.
\<close>

theorem handle_domain_extraction:
  assumes "re_match HANDLE_REGEX username"
  shows "2 \<le> length (split_on CHR ''.'' username) \<and>
         (\<exists>label domain_tld.
            extract_domain username = Some domain_tld \<and>
            CHR ''.'' \<notin> set label \<and>
            username = label @ ''.'' @ domain_tld)"
proof -
  have dot: "CHR ''.'' \<in> set username" using assms by (rule handle_has_dot)
  have n: "2 \<le> length (split_on CHR ''.'' username)" using dot by (rule two_parts)
  then have "extract_domain username = Some (join ''.'' (tl (split_on CHR ''.'' username)))"
    by (simp add: extract_domain_def)
  moreover have "username = hd (split_on CHR ''.'' username) @ ''.''
                   @ join ''.'' (tl (split_on CHR ''.'' username))"
    "CHR ''.'' \<notin> set (hd (split_on CHR ''.'' username))"
    using split_on_first [OF dot] by simp_all
  ultimately show ?thesis using n by blast
qed


theorem handle_domain_extraction_witness:
  "re_match HANDLE_REGEX ''alice.example.com'' \<and>
   extract_domain ''alice.example.com'' = Some ''example.com'' \<and>
   2 \<le> length (split_on CHR ''.'' ''alice.example.com'') \<and>
   (\<exists>label domain_tld.
      extract_domain ''alice.example.com'' = Some domain_tld \<and>
      CHR ''.'' \<notin> set label \<and>
      ''alice.example.com'' = label @ ''.'' @ domain_tld)"
proof -
  have h: "re_match HANDLE_REGEX ''alice.example.com''" by code_simp
  have d: "extract_domain ''alice.example.com'' = Some ''example.com''" by code_simp
  show ?thesis by (rule conjI [OF h conjI [OF d handle_domain_extraction [OF h]]])
qed

text \<open>
  C10. No string matches both patterns: a string that matches the DID pattern
  begins with \<open>did:\<close>, and the handle pattern admits no colon. So testing the handle
  pattern first never takes a DID for a handle.
\<close>

theorem did_is_not_handle:
  "re_match DID_RE s \<Longrightarrow> \<not> re_match HANDLE_REGEX s \<and> (\<exists>t. s = ''did:'' @ t)"
  using handle_did_disjoint did_prefix by blast


theorem did_is_not_handle_witness:
  "re_match DID_RE ''did:plc:abc123'' \<and>
   (\<not> re_match HANDLE_REGEX ''did:plc:abc123'' \<and> (\<exists>t. ''did:plc:abc123'' = ''did:'' @ t))"
proof -
  have h: "re_match DID_RE ''did:plc:abc123''" by code_simp
  show ?thesis by (rule conjI [OF h did_is_not_handle [OF h]])
qed



section \<open>Properties of the code challenge\<close>

lemma generate_code_challenge_ascii:
  assumes "list_all (\<lambda>c. (of_char c :: nat) < 128) v"
  shows "generate_code_challenge sha256 v =
           Inr (base64url_nopad (sha256 (map (\<lambda>c. of_nat (of_char c)) v)))"
  using assms
  by (simp add: generate_code_challenge_def encode_ascii_def ebind_def rstrip_urlsafe_b64encode)

lemma generate_code_challenge_non_ascii:
  assumes "\<not> list_all (\<lambda>c. (of_char c :: nat) < 128) v"
  shows "generate_code_challenge sha256 v = Inl UnicodeEncodeError"
  using assms by (simp add: generate_code_challenge_def encode_ascii_def ebind_def)

text \<open>
  C4, as amended. \<open>generate_code_challenge\<close> reads and writes no state: it is a
  function of the verifier (and of the library's hash function). For every verifier
  made of ASCII characters only, as every PKCE verifier is, the result is the
  base64url encoding without padding of the SHA-256 digest of the verifier's bytes.
  For every other string the call raises \<open>UnicodeEncodeError\<close> and returns no
  challenge. Equal verifiers give equal results.
\<close>

theorem generate_code_challenge_deterministic:
  "(list_all (\<lambda>c. (of_char c :: nat) < 128) v \<longrightarrow>
      generate_code_challenge sha256 v =
        Inr (base64url_nopad (sha256 (map (\<lambda>c. of_nat (of_char c)) v)))) \<and>
   (\<not> list_all (\<lambda>c. (of_char c :: nat) < 128) v \<longrightarrow>
      generate_code_challenge sha256 v = Inl UnicodeEncodeError) \<and>
   (v = v' \<longrightarrow> generate_code_challenge sha256 v = generate_code_challenge sha256 v')"
  using generate_code_challenge_ascii generate_code_challenge_non_ascii by blast

theorem generate_code_challenge_deterministic_witness:
  "list_all (\<lambda>c. (of_char c :: nat) < 128) ''abc'' \<and>
   generate_code_challenge (\<lambda>bs. bs) ''abc'' =
     Inr (base64url_nopad (map (\<lambda>c. of_nat (of_char c)) ''abc'')) \<and>
   generate_code_challenge (\<lambda>bs. bs) ''abc'' = Inr ''YWJj'' \<and>
   \<not> list_all (\<lambda>c. (of_char c :: nat) < 128) [CHR ''a'', CHR 0xE9] \<and>
   generate_code_challenge (\<lambda>bs. bs) [CHR ''a'', CHR 0xE9] = Inl UnicodeEncodeError"
proof -
  have a: "list_all (\<lambda>c. (of_char c :: nat) < 128) ''abc''" by simp
  have e: "generate_code_challenge (\<lambda>bs. bs) ''abc'' = Inr ''YWJj''"
    by (simp add: generate_code_challenge_def encode_ascii_def ebind_def rstrip_def
          digit6_def b64_alphabet_def)
  have n: "\<not> list_all (\<lambda>c. (of_char c :: nat) < 128) [CHR ''a'', CHR 0xE9]" by simp
  note t = mp [OF conjunct1 [OF generate_code_challenge_deterministic [of "''abc''" "\<lambda>bs. bs"]] a]
  note u = mp [OF conjunct1 [OF conjunct2 [OF generate_code_challenge_deterministic
                 [of "[CHR ''a'', CHR 0xE9]" "\<lambda>bs. bs"]]] n]
  show ?thesis by (rule conjI [OF a conjI [OF t conjI [OF e conjI [OF n u]]]])
qed

text \<open>
  C4 as first stated, "for every verifier string it returns the encoded digest",
  fails on a string with a character outside ASCII: for the one-character string
  whose character has code 233 (an e with an acute accent),
  \<open>code_verifier.encode("ascii")\<close> raises \<open>UnicodeEncodeError\<close> before anything is
  hashed, so no challenge is returned.
\<close>

theorem generate_code_challenge_non_ascii_raises:
  "generate_code_challenge (\<lambda>bs. bs) [CHR 0xE9] = Inl UnicodeEncodeError"
  by (simp add: generate_code_challenge_def encode_ascii_def ebind_def)

section \<open>Properties of the pushed authorization request\<close>

lemma send_par_request_no_endpoint:
  "\<not> truthy par_endpoint \<Longrightarrow>
     send_par_request net par_endpoint cc st lh cid ru sc w = (Inr (PNone, PNone), w)"
  by (simp add: send_par_request_def)

lemma send_par_request_failure:
  assumes "url \<noteq> []"
    and "\<And>data. net (requests w) (POST url data) = r"
    and "r = RequestError \<or> r = Response None \<or> (\<exists>status body. r = HTTPStatusError status body)"
  shows "fst (send_par_request net (PStr url) cc st lh cid ru sc w) = Inr (PNone, PNone)"
  using assms by (auto simp: send_par_request_def http_post_def Let_def)

lemma send_par_request_object:
  assumes "url \<noteq> []"
    and "\<And>data. net (requests w) (POST url data) = Response (Some (PDict kvs))"
  shows "fst (send_par_request net (PStr url) cc st lh cid ru sc w) =
           (let request_uri = (case map_of kvs ''request_uri'' of None \<Rightarrow> PNone | Some v \<Rightarrow> v);
                expires_in = (case map_of kvs ''expires_in'' of None \<Rightarrow> PNone | Some v \<Rightarrow> v)
            in if truthy request_uri then Inr (request_uri, expires_in) else Inr (PNone, PNone))"
  using assms by (simp add: send_par_request_def http_post_def Let_def)

text \<open>
  C7. The claim: \<open>send_par_request\<close> never raises. When the PAR endpoint answers
  with a success status and a JSON body that is not an object (here the empty
  array), \<open>data.get("request_uri")\<close> raises \<open>AttributeError\<close>, which no handler of
  the function catches.
\<close>

theorem send_par_request_raises_on_json_array:
  "fst (send_par_request (\<lambda>h r. Response (Some (PList [])))
          (PStr ''https://auth.example.org/par'') code_challenge state login_hint client_id
          redirect_uri scope w) = Inl AttributeError"
  by (simp add: send_par_request_def http_post_def Let_def)

theorem send_par_request_raises_on_json_array_witness:
  "fst (send_par_request (\<lambda>h r. Response (Some (PList [])))
          (PStr ''https://auth.example.org/par'') ''challenge'' ''state''
          (Some ''alice.example.com'')
          (Some ''https://app.example.com/oauth/client-metadata.json'')
          (Some ''https://app.example.com/oauth/callback/'')
          ''atproto transition:generic''
          \<lparr>requests = [], drawn = 0, stdout = []\<rparr>) = Inl AttributeError"
  by (rule send_par_request_raises_on_json_array)

section \<open>Properties of the authorization server discovery\<close>

lemma auth_server_loop_skip:
  assumes "skipped (net (requests w) (GET (metadata_url s)))"
  shows "auth_server_loop net (PStr s # rest) w =
           auth_server_loop net rest (w\<lparr>requests := requests w @ [GET (metadata_url s)]\<rparr>)"
proof (cases "net (requests w) (GET (metadata_url s))")
  case (HTTPStatusError status body)
  then show ?thesis by (simp add: http_get_def metadata_url_def)
next
  case RequestError
  then show ?thesis by (simp add: http_get_def metadata_url_def)
next
  case (Response body)
  show ?thesis
  proof (cases body)
    case None
    then show ?thesis using Response by (simp add: http_get_def metadata_url_def)
  next
    case (Some v)
    then obtain kvs where v: "v = PDict kvs"
      using assms Response by (cases v) auto
    then show ?thesis
      using assms Response Some by (auto simp: http_get_def metadata_url_def)
  qed
qed

lemma auth_server_loop_accept:
  assumes "net (requests w) (GET (metadata_url s)) = Response (Some (PDict kvs))"
    and "has_endpoints (PDict kvs)"
  shows "auth_server_loop net (PStr s # rest) w =
           (Inr (PDict kvs,
                 case map_of kvs ''authorization_endpoint'' of None \<Rightarrow> PNone | Some v \<Rightarrow> v,
                 case map_of kvs ''token_endpoint'' of None \<Rightarrow> PNone | Some v \<Rightarrow> v,
                 case map_of kvs ''pushed_authorization_request_endpoint'' of
                   None \<Rightarrow> PNone | Some v \<Rightarrow> v),
            w\<lparr>requests := requests w @ [GET (metadata_url s)]\<rparr>)"
  using assms by (simp add: http_get_def metadata_url_def)

lemma auth_server_loop_raise:
  assumes "net (requests w) (GET (metadata_url s)) = Response (Some v)"
    and "\<forall>kvs. v \<noteq> PDict kvs"
  shows "fst (auth_server_loop net (PStr s # rest) w) = Inl AttributeError"
  using assms by (cases v) (simp_all add: http_get_def metadata_url_def)


lemma get_auth_server_metadata_list:
  "get_auth_server_metadata net (PList xs) w = auth_server_loop net xs w"
  by (cases xs) (simp_all add: get_auth_server_metadata_def)

lemma get_auth_server_metadata_not_list:
  "\<not> is_list v \<Longrightarrow> get_auth_server_metadata net v w = (Inr (PNone, PNone, PNone, PNone), w)"
  by (simp add: get_auth_server_metadata_def)

lemma auth_server_loop_all_skipped:
  assumes "\<forall>j<length ss. skipped (net (requests w @ sent (take j ss)) (GET (metadata_url (ss ! j))))"
  shows "auth_server_loop net (map PStr ss) w =
           (Inr (PNone, PNone, PNone, PNone), w\<lparr>requests := requests w @ sent ss\<rparr>)"
  using assms
proof (induction ss arbitrary: w)
  case Nil
  then show ?case by (simp add: sent_def)
next
  case (Cons s ss)
  let ?w' = "w\<lparr>requests := requests w @ [GET (metadata_url s)]\<rparr>"
  have first: "skipped (net (requests w) (GET (metadata_url s)))"
    using Cons.prems by (auto simp: sent_def dest: spec [of _ 0])
  have rest: "\<forall>j<length ss.
      skipped (net (requests ?w' @ sent (take j ss)) (GET (metadata_url (ss ! j))))"
  proof (intro allI impI)
    fix j assume "j < length ss"
    then have "skipped (net (requests w @ sent (take (Suc j) (s # ss)))
                 (GET (metadata_url ((s # ss) ! Suc j))))"
      using Cons.prems by (auto dest: spec [of _ "Suc j"])
    then show "skipped (net (requests ?w' @ sent (take j ss)) (GET (metadata_url (ss ! j))))"
      by (simp add: sent_def)
  qed
  have "auth_server_loop net (map PStr (s # ss)) w = auth_server_loop net (map PStr ss) ?w'"
    using first auth_server_loop_skip [of net w s "map PStr ss"] by simp
  also have "\<dots> = (Inr (PNone, PNone, PNone, PNone), ?w'\<lparr>requests := requests ?w' @ sent ss\<rparr>)"
    by (rule Cons.IH [OF rest])
  finally show ?case by (simp add: sent_def)
qed

lemma auth_server_loop_first_accepted:
  assumes "i < length ss"
    and "\<forall>j<i. skipped (net (requests w @ sent (take j ss)) (GET (metadata_url (ss ! j))))"
    and "net (requests w @ sent (take i ss)) (GET (metadata_url (ss ! i)))
           = Response (Some (PDict kvs))"
    and "has_endpoints (PDict kvs)"
  shows "auth_server_loop net (map PStr ss) w =
           (Inr (PDict kvs,
                 case map_of kvs ''authorization_endpoint'' of None \<Rightarrow> PNone | Some v \<Rightarrow> v,
                 case map_of kvs ''token_endpoint'' of None \<Rightarrow> PNone | Some v \<Rightarrow> v,
                 case map_of kvs ''pushed_authorization_request_endpoint'' of
                   None \<Rightarrow> PNone | Some v \<Rightarrow> v),
            w\<lparr>requests := requests w @ sent (take (Suc i) ss)\<rparr>)"
  using assms
proof (induction ss arbitrary: w i)
  case Nil
  then show ?case by simp
next
  case (Cons s ss)
  let ?w' = "w\<lparr>requests := requests w @ [GET (metadata_url s)]\<rparr>"
  show ?case
  proof (cases i)
    case 0
    then have "net (requests w) (GET (metadata_url s)) = Response (Some (PDict kvs))"
      using Cons.prems(3) by (simp add: sent_def)
    then show ?thesis
      using 0 Cons.prems(4) auth_server_loop_accept [of net w s kvs "map PStr ss"]
      by (simp add: sent_def)
  next
    case (Suc k)
    have first: "skipped (net (requests w) (GET (metadata_url s)))"
      using Cons.prems(2) Suc by (auto simp: sent_def dest: spec [of _ 0])
    have k: "k < length ss" using Cons.prems(1) Suc by simp
    have rest: "\<forall>j<k. skipped (net (requests ?w' @ sent (take j ss)) (GET (metadata_url (ss ! j))))"
    proof (intro allI impI)
      fix j assume "j < k"
      then have "skipped (net (requests w @ sent (take (Suc j) (s # ss)))
                   (GET (metadata_url ((s # ss) ! Suc j))))"
        using Cons.prems(2) Suc by (auto dest: spec [of _ "Suc j"])
      then show "skipped (net (requests ?w' @ sent (take j ss)) (GET (metadata_url (ss ! j))))"
        by (simp add: sent_def)
    qed
    have acc: "net (requests ?w' @ sent (take k ss)) (GET (metadata_url (ss ! k)))
                 = Response (Some (PDict kvs))"
      using Cons.prems(3) Suc by (simp add: sent_def)
    have "auth_server_loop net (map PStr (s # ss)) w = auth_server_loop net (map PStr ss) ?w'"
      using first auth_server_loop_skip [of net w s "map PStr ss"] by simp
    also note Cons.IH [OF k rest acc Cons.prems(4)]
    finally show ?thesis using Suc by (simp add: sent_def)
  qed
qed

lemma get_auth_server_metadata_second_candidate:
  "get_auth_server_metadata
     (\<lambda>h r. if r = GET ''https://a.example/.well-known/oauth-authorization-server''
             then HTTPStatusError 500 None
             else Response (Some (PDict
                    [(''authorization_endpoint'', PStr ''https://b.example/authorize''),
                     (''token_endpoint'', PStr ''https://b.example/token'')])))
     (PList [PStr ''https://a.example'', PStr ''https://b.example/''])
     \<lparr>requests = [], drawn = 0, stdout = []\<rparr>
   = (Inr (PDict [(''authorization_endpoint'', PStr ''https://b.example/authorize''),
                  (''token_endpoint'', PStr ''https://b.example/token'')],
           PStr ''https://b.example/authorize'', PStr ''https://b.example/token'', PNone),
      \<lparr>requests = [GET ''https://a.example/.well-known/oauth-authorization-server'',
                    GET ''https://b.example/.well-known/oauth-authorization-server''],
       drawn = 0, stdout = []\<rparr>)"
  by code_simp

text \<open>
  C3. The claim: a candidate whose metadata lacks a required endpoint is passed
  over and the next candidate is tried. When the first candidate answers with a
  success status and a JSON body that is not an object (here the empty array),
  \<open>metadata.get("authorization_endpoint")\<close> raises \<open>AttributeError\<close>, which no
  handler of the function catches: the second candidate, whose metadata has both
  endpoints, is never asked.
\<close>

theorem get_auth_server_metadata_raises_on_json_array:
  "fst (get_auth_server_metadata
          (\<lambda>h r. if r = GET ''https://a.example/.well-known/oauth-authorization-server''
                  then Response (Some (PList []))
                  else Response (Some (PDict
                         [(''authorization_endpoint'', PStr ''https://b.example/authorize''),
                          (''token_endpoint'', PStr ''https://b.example/token'')])))
          (PList [PStr ''https://a.example'', PStr ''https://b.example''])
          w) = Inl AttributeError"
  by code_simp

theorem get_auth_server_metadata_raises_on_json_array_witness:
  "fst (get_auth_server_metadata
          (\<lambda>h r. if r = GET ''https://a.example/.well-known/oauth-authorization-server''
                  then Response (Some (PList []))
                  else Response (Some (PDict
                         [(''authorization_endpoint'', PStr ''https://b.example/authorize''),
                          (''token_endpoint'', PStr ''https://b.example/token'')])))
          (PList [PStr ''https://a.example'', PStr ''https://b.example''])
          \<lparr>requests = [], drawn = 0, stdout = []\<rparr>) = Inl AttributeError"
  by (rule get_auth_server_metadata_raises_on_json_array)

section \<open>Properties of the orchestrator\<close>



lemma alphabet_all_ascii: "list_all (\<lambda>c. (of_char c :: nat) < 128) b64_alphabet"
  by code_simp

lemma base64url_nopad_ascii: "list_all (\<lambda>c. (of_char c :: nat) < 128) (take n (base64url_nopad bs))"
proof -
  have "\<forall>c\<in>set b64_alphabet. (of_char c :: nat) < 128"
    using alphabet_all_ascii by (simp add: list_all_iff)
  then have "\<forall>c\<in>set (take n (base64url_nopad bs)). (of_char c :: nat) < 128"
    using base64url_nopad_alphabet [of bs] by (auto dest: in_set_takeD)
  then show ?thesis by (simp add: list_all_iff)
qed

lemma generate_code_challenge_of_verifier:
  "generate_code_challenge sha256 (take n (base64url_nopad bs)) =
     Inr (base64url_nopad (sha256 (map (\<lambda>c. of_nat (of_char c)) (take n (base64url_nopad bs)))))"
  by (rule generate_code_challenge_ascii) (rule base64url_nopad_ascii)

lemma generate_code_verifier_default:
  "generate_code_verifier rnd 128 w =
     (Inr (take 128 (base64url_nopad (map rnd [drawn w ..< drawn w + 96]))),
      w\<lparr>drawn := drawn w + 96\<rparr>)"
  using generate_code_verifier_in_range [of 128 rnd w] by simp

lemma example_username: "getenv_or_exit (example_env ''alice.example.com'') ''USERNAME'' ''Missing USERNAME'' = Inr ''alice.example.com''"
  by code_simp
lemma example_app_url: "getenv_or_exit (example_env ''alice.example.com'') ''APP_URL'' ''Missing APP_URL'' = Inr ''app.example.com''"
  by code_simp

lemma example_resolve_identity: "resolve_identity (example_net 5 example_pds_metadata) ''alice.example.com'' \<lparr>requests = [], drawn = 0, stdout = []\<rparr>
   = (Inr (PStr ''did:plc:abc123''), \<lparr>requests = [GET ''https://example.com/xrpc/com.atproto.identity.resolveHandle?handle=alice.example.com''], drawn = 0, stdout = []\<rparr>)"
  by code_simp

lemma example_did_document: "get_did_document (example_net 5 example_pds_metadata) render (PStr ''did:plc:abc123'')
     \<lparr>requests = [GET ''https://example.com/xrpc/com.atproto.identity.resolveHandle?handle=alice.example.com''], drawn = 0, stdout = []\<rparr>
   = (Inr (PDict [(''service'', PList [PDict [(''serviceEndpoint'', PStr ''https://pds.example.org'')]])],
           PStr ''https://pds.example.org''),
      \<lparr>requests = [GET ''https://example.com/xrpc/com.atproto.identity.resolveHandle?handle=alice.example.com'',
          GET ''https://plc.directory/did:plc:abc123''], drawn = 0, stdout = []\<rparr>)"
  by code_simp

lemma example_pds_metadata_fetch: "get_pds_metadata (example_net 5 example_pds_metadata) (PStr ''https://pds.example.org'')
      \<lparr>requests = [GET ''https://example.com/xrpc/com.atproto.identity.resolveHandle?handle=alice.example.com'',
          GET ''https://plc.directory/did:plc:abc123''], drawn = 0, stdout = []\<rparr>
   = (Inr (PDict [(''authorization_servers'', PList [PStr ''https://auth.example.org''])]),
      \<lparr>requests = [GET ''https://example.com/xrpc/com.atproto.identity.resolveHandle?handle=alice.example.com'',
          GET ''https://plc.directory/did:plc:abc123'',
          GET ''https://pds.example.org/.well-known/oauth-protected-resource''], drawn = 0, stdout = []\<rparr>)"
  by code_simp

lemma example_extract_auth_server: "extract_auth_server (PDict [(''authorization_servers'', PList [PStr ''https://auth.example.org''])])
   = Inr (PList [PStr ''https://auth.example.org''])"
  by code_simp

lemma example_auth_server_metadata: "get_auth_server_metadata (example_net 5 example_pds_metadata) (PList [PStr ''https://auth.example.org''])
      \<lparr>requests = [GET ''https://example.com/xrpc/com.atproto.identity.resolveHandle?handle=alice.example.com'',
          GET ''https://plc.directory/did:plc:abc123'',
          GET ''https://pds.example.org/.well-known/oauth-protected-resource''], drawn = 0, stdout = []\<rparr>
   = (Inr (PDict
                 [(''authorization_endpoint'', PStr ''https://auth.example.org/oauth/authorize''),
                  (''token_endpoint'', PStr ''https://auth.example.org/oauth/token''),
                  (''pushed_authorization_request_endpoint'',
                   PStr ''https://auth.example.org/oauth/par'')],
           PStr ''https://auth.example.org/oauth/authorize'',
           PStr ''https://auth.example.org/oauth/token'',
           PStr ''https://auth.example.org/oauth/par''),
      \<lparr>requests = [GET ''https://example.com/xrpc/com.atproto.identity.resolveHandle?handle=alice.example.com'',
          GET ''https://plc.directory/did:plc:abc123'',
          GET ''https://pds.example.org/.well-known/oauth-protected-resource'',
          GET ''https://auth.example.org/.well-known/oauth-authorization-server''], drawn = 0, stdout = []\<rparr>)"
  by code_simp

lemma example_par_answer:
  "length h = 4 \<Longrightarrow> (example_net 5 example_pds_metadata) h (POST ''https://auth.example.org/oauth/par'' d) =
     Response (Some (PDict [(''request_uri'', PStr ''urn:ietf:params:oauth:request_uri:abc''),
                            (''expires_in'', PInt 90)]))"
  by (simp add: example_net_def example_answer_def)

text \<open>The printed URL is never of the plain form, whatever the endpoint and the request URI.\<close>

lemma auth_url_never_plain:
  "auth_url render (PStr a) (PStr r) \<noteq>
     a @ ''?client_id=https://madrilenyer.neocities.org/bsky/oauth/client-metadata.json&request_uri='' @ r"
  by (simp add: auth_url_def fmt_def)

text \<open>
  C2. The claim: the authorization URL that is printed is the authorization
  endpoint, \<open>?client_id=\<close>, the fixed client metadata URL, \<open>&request_uri=\<close> and the
  request URI, with nothing in between. In the end-to-end scenario \<open>main\<close> returns
  \<open>True\<close> and the URL it prints has twelve spaces after the question mark and
  twelve spaces before \<open>&request_uri=\<close>, whatever the random bytes and the hash are.
\<close>

theorem main_prints_url_with_spaces:
  "fst (main (example_env ''alice.example.com'') (example_net 5 example_pds_metadata) rnd sha256 render
          \<lparr>requests = [], drawn = 0, stdout = []\<rparr>) = Inr True \<and>
   stdout (snd (main (example_env ''alice.example.com'') (example_net 5 example_pds_metadata) rnd sha256 render
          \<lparr>requests = [], drawn = 0, stdout = []\<rparr>)) ! 11 =
     ''https://auth.example.org/oauth/authorize?            client_id=https://madrilenyer.neocities.org/bsky/oauth/client-metadata.json            &request_uri=urn:ietf:params:oauth:request_uri:abc''"
  by (simp add: main_def example_username example_app_url example_resolve_identity
        example_did_document example_pds_metadata_fetch example_extract_auth_server
        example_auth_server_metadata generate_oauth_state_def token_bytes_def
        generate_code_verifier_default generate_code_challenge_of_verifier print_def
        send_par_request_def http_post_def example_par_answer auth_url_def fmt_def Let_def)

theorem main_prints_url_with_spaces_witness:
  "fst (main (example_env ''alice.example.com'') (example_net 5 example_pds_metadata)
          (\<lambda>i. 0) (\<lambda>bs. bs) (\<lambda>v. [])
          \<lparr>requests = [], drawn = 0, stdout = []\<rparr>) = Inr True \<and>
   stdout (snd (main (example_env ''alice.example.com'') (example_net 5 example_pds_metadata)
          (\<lambda>i. 0) (\<lambda>bs. bs) (\<lambda>v. [])
          \<lparr>requests = [], drawn = 0, stdout = []\<rparr>)) ! 11 =
     ''https://auth.example.org/oauth/authorize?            client_id=https://madrilenyer.neocities.org/bsky/oauth/client-metadata.json            &request_uri=urn:ietf:params:oauth:request_uri:abc''"
  by (rule main_prints_url_with_spaces)

end
